theory Spec2Isabelle
  imports Main
begin

section \<open>Errors\<close>

text \<open>
  The Python exceptions that the modelled code can raise.  \<open>TraitError\<close> is what the
  Traits library raises when a value outside an \<open>Enum\<close> trait's list is assigned;
  \<open>RequestException\<close> stands for any failure of \<open>requests.post\<close>.
\<close>

datatype error =
    AssertionError
  | IndexError
  | TypeError
  | KeyError
  | AttributeError
  | TraitError
  | RequestException

text \<open>Sequencing of fallible steps: the first exception propagates.\<close>

definition and_then :: "error + 'a \<Rightarrow> ('a \<Rightarrow> error + 'b) \<Rightarrow> error + 'b" where
  "and_then r f = (case r of Inl e \<Rightarrow> Inl e | Inr x \<Rightarrow> f x)"

section \<open>output\_list.py: log levels\<close>

definition LOG_EMERG :: int where "LOG_EMERG = 0"
definition LOG_ALERT :: int where "LOG_ALERT = 1"
definition LOG_CRIT :: int where "LOG_CRIT = 2"
definition LOG_ERROR :: int where "LOG_ERROR = 3"
definition LOG_WARN :: int where "LOG_WARN = 4"
definition LOG_NOTICE :: int where "LOG_NOTICE = 5"
definition LOG_INFO :: int where "LOG_INFO = 6"
definition LOG_DEBUG :: int where "LOG_DEBUG = 7"

definition CONSOLE_LOG_LEVEL :: int where "CONSOLE_LOG_LEVEL = - 1"
definition DEFAULT_LOG_LEVEL :: int where "DEFAULT_LOG_LEVEL = - 2"

definition UNMASKABLE_LEVELS :: "(int \<times> string) list" where
  "UNMASKABLE_LEVELS = [(CONSOLE_LOG_LEVEL, ''CONSOLE'')]"

definition SYSLOG_LEVELS :: "(int \<times> string) list" where
  "SYSLOG_LEVELS =
     [(LOG_ERROR, ''ERROR''), (LOG_WARN, ''WARNING''), (LOG_INFO, ''INFO''), (LOG_DEBUG, ''DEBUG'')]"

definition DEFAULT_MAX_LEN :: int where "DEFAULT_MAX_LEN = 250"

section \<open>output\_list.py: LogItem\<close>

record LogItem =
  log_level :: int
  timestamp :: string
  msg :: string

text \<open>
  The constructor \<open>LogItem(msg, level)\<close>.  It reads the clock
  (\<open>time.strftime("%b %d %Y %H:%M:%S")\<close>); the reading is the extra argument \<open>now\<close>.
\<close>

definition LogItem_init :: "string \<Rightarrow> int \<Rightarrow> string \<Rightarrow> LogItem" where
  "LogItem_init m level now = \<lparr>log_level = level, timestamp = now, msg = m\<rparr>"

definition matches_log_level_filter :: "LogItem \<Rightarrow> int \<Rightarrow> bool" where
  "matches_log_level_filter item lvl = (log_level item \<le> lvl)"

text \<open>Decimal rendering of an integer, as \<open>str.format\<close> renders an \<open>int\<close>.\<close>

definition digit_char :: "nat \<Rightarrow> char" where
  "digit_char d =
     (if d = 0 then CHR ''0'' else if d = 1 then CHR ''1'' else if d = 2 then CHR ''2''
      else if d = 3 then CHR ''3'' else if d = 4 then CHR ''4'' else if d = 5 then CHR ''5''
      else if d = 6 then CHR ''6'' else if d = 7 then CHR ''7'' else if d = 8 then CHR ''8''
      else CHR ''9'')"

fun str_nat :: "nat \<Rightarrow> string" where
  "str_nat n = (if n < 10 then [digit_char n] else str_nat (n div 10) @ [digit_char (n mod 10)])"

declare str_nat.simps [simp del]

definition str_int :: "int \<Rightarrow> string" where
  "str_int i = (if i < 0 then CHR ''-'' # str_nat (nat (- i)) else str_nat (nat i))"

definition newline :: char where
  "newline = CHR 0x0A"

definition print_to_log :: "LogItem \<Rightarrow> string" where
  "print_to_log item =
     timestamp item @ '','' @ str_int (log_level item) @ '','' @ msg item @ [newline]"

section \<open>output\_list.py: OutputList\<close>

text \<open>
  \<open>str.isspace\<close> on a Python 2 byte string: true iff the string is non-empty and all of
  its characters are among space, tab, line feed, vertical tab, form feed and carriage
  return.
\<close>

definition is_space_char :: "char \<Rightarrow> bool" where
  "is_space_char c =
     (c = CHR '' '' \<or> c = CHR 0x09 \<or> c = CHR 0x0A \<or> c = CHR 0x0B \<or> c = CHR 0x0C \<or> c = CHR 0x0D)"

definition isspace :: "string \<Rightarrow> bool" where
  "isspace s = (s \<noteq> [] \<and> list_all is_space_char s)"

text \<open>
  The object's state.  \<open>paused_buffer\<close> is the attribute \<open>_paused_buffer\<close>; \<open>logfile\<close>
  is the text written so far to the file opened by the constructor; \<open>max_len\<close> is
  \<open>None\<close> or an integer, as the trait \<open>Trait(DEFAULT_MAX_LEN, None, Int)\<close> allows.
  The three buffers are \<open>List\<close> traits: assigning a list to one stores a copy, so the
  buffers never alias and each is a value of its own.
\<close>

record OutputList =
  unfiltered_list :: "LogItem list"
  paused_buffer :: "LogItem list"
  filtered_list :: "LogItem list"
  log_level_filter :: int
  max_len :: "int option"
  paused :: bool
  tfile :: bool
  logfile :: string

text \<open>
  A fresh object: empty buffers, not paused, and the filter at the first value of the
  \<open>Enum\<close> trait's list, the first key of \<open>SYSLOG_LEVELS\<close>.
\<close>

definition OutputList_init :: "bool \<Rightarrow> int option \<Rightarrow> OutputList" where
  "OutputList_init tf ml =
     \<lparr>unfiltered_list = [], paused_buffer = [], filtered_list = [],
      log_level_filter = fst (hd SYSLOG_LEVELS), max_len = ml, paused = False,
      tfile = tf, logfile = []\<rparr>"

text \<open>
  \<open>append_truncate\<close>: the buffer is returned updated.  With \<open>max_len = None\<close> the
  comparison (Python 3) or the subtraction in the assertion (Python 2) raises TypeError.
  \<open>buffer.pop()\<close> on an empty list raises IndexError.
\<close>

definition append_truncate :: "int option \<Rightarrow> LogItem list \<Rightarrow> LogItem \<Rightarrow> error + LogItem list" where
  "append_truncate ml buffer s =
     (case ml of
        None \<Rightarrow> Inl TypeError
      | Some m \<Rightarrow>
          if int (length buffer) > m then
            (if int (length buffer) - m \<noteq> 1 then Inl AssertionError
             else if buffer = [] then Inl IndexError
             else Inr (s # butlast buffer))
          else Inr (s # buffer))"

text \<open>The method \<open>write\<close> (the name is an Isar keyword, hence the suffix).\<close>

definition write_console :: "string \<Rightarrow> string \<Rightarrow> OutputList \<Rightarrow> error + OutputList" where
  "write_console s now st =
     (if s \<noteq> [] \<and> \<not> isspace s then
        (let log = LogItem_init s CONSOLE_LOG_LEVEL now in
         and_then
           (if paused st then
              and_then (append_truncate (max_len st) (paused_buffer st) log)
                (\<lambda>b. Inr (st\<lparr>paused_buffer := b\<rparr>))
            else
              and_then (append_truncate (max_len st) (unfiltered_list st) log)
                (\<lambda>b. if matches_log_level_filter log (log_level_filter st) then
                        and_then (append_truncate (max_len st) (filtered_list st) log)
                          (\<lambda>f. Inr (st\<lparr>unfiltered_list := b, filtered_list := f\<rparr>))
                      else Inr (st\<lparr>unfiltered_list := b\<rparr>)))
           (\<lambda>st'. if tfile st' then Inr (st'\<lparr>logfile := logfile st' @ print_to_log log\<rparr>)
                  else Inr st'))
      else Inr st)"

definition write_level :: "string \<Rightarrow> int \<Rightarrow> string \<Rightarrow> OutputList \<Rightarrow> error + OutputList" where
  "write_level s level now st =
     (if s \<noteq> [] \<and> \<not> isspace s then
        (let log = LogItem_init s level now in
         if paused st then
           and_then (append_truncate (max_len st) (paused_buffer st) log)
             (\<lambda>b. Inr (st\<lparr>paused_buffer := b\<rparr>))
         else
           and_then (append_truncate (max_len st) (unfiltered_list st) log)
             (\<lambda>b. if matches_log_level_filter log (log_level_filter st) then
                     and_then (append_truncate (max_len st) (filtered_list st) log)
                       (\<lambda>f. Inr (st\<lparr>unfiltered_list := b, filtered_list := f\<rparr>))
                   else Inr (st\<lparr>unfiltered_list := b\<rparr>)))
      else Inr st)"

definition clear :: "OutputList \<Rightarrow> OutputList" where
  "clear st = st\<lparr>paused_buffer := [], filtered_list := [], unfiltered_list := []\<rparr>"

definition log_level_filter_changed :: "OutputList \<Rightarrow> OutputList" where
  "log_level_filter_changed st =
     st\<lparr>filtered_list :=
          filter (\<lambda>item. matches_log_level_filter item (log_level_filter st)) (unfiltered_list st)\<rparr>"

definition paused_changed :: "OutputList \<Rightarrow> OutputList" where
  "paused_changed st =
     (if paused st then st\<lparr>paused_buffer := unfiltered_list st\<rparr>
      else (log_level_filter_changed (st\<lparr>unfiltered_list := paused_buffer st\<rparr>))
             \<lparr>paused_buffer := []\<rparr>)"

text \<open>
  Assignments to the traits \<open>log_level_filter\<close> and \<open>paused\<close>.  The \<open>Enum\<close> trait
  rejects a value that is not a key of \<open>SYSLOG_LEVELS\<close> and leaves the object as it
  was; the handler \<open>_<name>_changed\<close> runs only when the stored value changes.
\<close>

definition set_log_level_filter :: "int \<Rightarrow> OutputList \<Rightarrow> error + OutputList" where
  "set_log_level_filter v st =
     (if v \<notin> set (map fst SYSLOG_LEVELS) then Inl TraitError
      else if v = log_level_filter st then Inr st
      else Inr (log_level_filter_changed (st\<lparr>log_level_filter := v\<rparr>)))"

definition set_paused :: "bool \<Rightarrow> OutputList \<Rightarrow> OutputList" where
  "set_paused b st = (if b = paused st then st else paused_changed (st\<lparr>paused := b\<rparr>))"

text \<open>The public operations, and a run of them from left to right.\<close>

datatype op =
    Write string string
  | WriteLevel string int string
  | Clear
  | SetFilter int
  | SetPaused bool

fun step :: "op \<Rightarrow> OutputList \<Rightarrow> error + OutputList" where
  "step (Write s now) st = write_console s now st"
| "step (WriteLevel s level now) st = write_level s level now st"
| "step Clear st = Inr (clear st)"
| "step (SetFilter v) st = set_log_level_filter v st"
| "step (SetPaused b) st = Inr (set_paused b st)"

fun run :: "op list \<Rightarrow> OutputList \<Rightarrow> error + OutputList" where
  "run [] st = Inr st"
| "run (x # xs) st = and_then (step x st) (run xs)"

text \<open>
  The operations that append an entry (a non-blank \<open>write\<close> or \<open>write_level\<close>), and the
  entry each of them constructs.
\<close>

fun is_append :: "op \<Rightarrow> bool" where
  "is_append (Write s now) = (s \<noteq> [] \<and> \<not> isspace s)"
| "is_append (WriteLevel s level now) = (s \<noteq> [] \<and> \<not> isspace s)"
| "is_append Clear = False"
| "is_append (SetFilter v) = False"
| "is_append (SetPaused b) = False"

fun entry_of :: "op \<Rightarrow> LogItem" where
  "entry_of (Write s now) = LogItem_init s CONSOLE_LOG_LEVEL now"
| "entry_of (WriteLevel s level now) = LogItem_init s level now"
| "entry_of Clear = LogItem_init [] DEFAULT_LOG_LEVEL []"
| "entry_of (SetFilter v) = LogItem_init [] DEFAULT_LOG_LEVEL []"
| "entry_of (SetPaused b) = LogItem_init [] DEFAULT_LOG_LEVEL []"

text \<open>
  The state invariant behind the assertion of \<open>append_truncate\<close>: \<open>max_len\<close> is the
  integer \<open>m\<close>, no buffer holds more than \<open>m + 1\<close> entries, and the filter is a key of
  \<open>SYSLOG_LEVELS\<close>.
\<close>

definition buffers_bounded :: "int \<Rightarrow> OutputList \<Rightarrow> bool" where
  "buffers_bounded m st =
     (max_len st = Some m
      \<and> int (length (unfiltered_list st)) \<le> m + 1
      \<and> int (length (paused_buffer st)) \<le> m + 1
      \<and> int (length (filtered_list st)) \<le> m + 1
      \<and> log_level_filter st \<in> set (map fst SYSLOG_LEVELS))"

section \<open>settings\_report.py\<close>

text \<open>
  Python values as far as the reporter looks at them: byte strings, a few atoms, any
  other non-dict object (tagged by a name), and dicts as association lists in
  iteration order.
\<close>

datatype pyval =
    PStr string
  | PInt int
  | PBool bool
  | PNone
  | PObj string
  | PDict "(pyval \<times> pyval) list"

fun is_str :: "pyval \<Rightarrow> bool" where
  "is_str (PStr s) = True"
| "is_str v = False"

fun is_dict :: "pyval \<Rightarrow> bool" where
  "is_dict (PDict d) = True"
| "is_dict v = False"

text \<open>\<open>converted[k] = v\<close>: replace the value of an existing key, or add the key at the end.\<close>

fun dict_set :: "('k \<times> 'v) list \<Rightarrow> 'k \<Rightarrow> 'v \<Rightarrow> ('k \<times> 'v) list" where
  "dict_set [] k v = [(k, v)]"
| "dict_set (p # ps) k v = (if fst p = k then (k, v) # ps else p # dict_set ps k v)"

text \<open>
  \<open>x[key]\<close> for a string key: a dict looks the key up (KeyError when absent), any other
  value of the model raises TypeError.
\<close>

fun subscript :: "pyval \<Rightarrow> string \<Rightarrow> error + pyval" where
  "subscript (PDict d) key =
     (case map_of d (PStr key) of None \<Rightarrow> Inl KeyError | Some v \<Rightarrow> Inr v)"
| "subscript v key = Inl TypeError"

text \<open>
  The loop of \<open>dict_values_to_strings\<close> over the items still to visit, with the dict
  \<open>converted\<close> built so far.  Python's \<open>str()\<close> is the parameter \<open>str_of\<close>.
\<close>

function dict_values_to_strings_loop ::
  "(pyval \<Rightarrow> string) \<Rightarrow> (pyval \<times> pyval) list \<Rightarrow> (pyval \<times> pyval) list
     \<Rightarrow> error + (pyval \<times> pyval) list" where
  "dict_values_to_strings_loop str_of [] converted = Inr converted"
| "dict_values_to_strings_loop str_of ((k, v) # rest) converted =
     (if \<not> is_str k then Inl TypeError
      else case v of
        PDict d \<Rightarrow>
          (case dict_values_to_strings_loop str_of d [] of
             Inl e \<Rightarrow> Inl e
           | Inr c \<Rightarrow> dict_values_to_strings_loop str_of rest (dict_set converted k (PDict c)))
      | _ \<Rightarrow> dict_values_to_strings_loop str_of rest (dict_set converted k (PStr (str_of v))))"
  by pat_completeness auto
termination
  by (relation "measure (\<lambda>(f, items, c). size_list (size_prod size size) items)") auto

definition dict_values_to_strings :: "(pyval \<Rightarrow> string) \<Rightarrow> pyval \<Rightarrow> error + pyval" where
  "dict_values_to_strings str_of d =
     (case d of
        PDict items \<Rightarrow>
          (case dict_values_to_strings_loop str_of items [] of
             Inl e \<Rightarrow> Inl e
           | Inr c \<Rightarrow> Inr (PDict c))
      | _ \<Rightarrow> Inl AttributeError)"

text \<open>
  What the reporter does to the outside: lines printed, and POST requests with their
  body.  \<open>json.dumps((uuid, data))\<close> is the parameter \<open>dumps\<close>: it either raises or
  yields the body text, and it is evaluated before \<open>requests.post\<close> is called.  The
  network is the parameter \<open>net\<close>: a request either raises or yields a status code.
\<close>

datatype event =
    Print string
  | Post string

fun is_post :: "event \<Rightarrow> bool" where
  "is_post (Post body) = True"
| "is_post (Print s) = False"

definition posts :: "event list \<Rightarrow> event list" where
  "posts tr = filter is_post tr"

definition post_data ::
  "(string \<Rightarrow> pyval \<Rightarrow> error + string) \<Rightarrow> (string \<Rightarrow> error + int) \<Rightarrow> pyval \<Rightarrow> pyval
     \<Rightarrow> (error + unit) \<times> event list" where
  "post_data dumps net uuid data =
     (case uuid of
        PStr u \<Rightarrow>
          (if \<not> is_dict data then (Inr (), [Print ''post data: data is not a dict''])
           else case dumps u data of
              Inl e \<Rightarrow> (Inl e, [])
            | Inr body \<Rightarrow>
               (case net body of
                  Inl e \<Rightarrow> (Inl e, [Post body])
                | Inr status_code \<Rightarrow>
                    if status_code \<noteq> 200
                    then (Inr (), [Post body, Print ''post data: failed to post data''])
                    else (Inr (), [Post body])))
      | _ \<Rightarrow> (Inr (), [Print ''post data: uuid is not a string'']))"

text \<open>The body of the \<open>try\<close> block of \<open>report_settings\<close>, then the method itself.\<close>

definition report_settings_try ::
  "(pyval \<Rightarrow> string) \<Rightarrow> (string \<Rightarrow> pyval \<Rightarrow> error + string) \<Rightarrow> (string \<Rightarrow> error + int)
     \<Rightarrow> pyval \<Rightarrow> (error + unit) \<times> event list" where
  "report_settings_try str_of dumps net settings =
     (case subscript settings ''system_info'' of
        Inl e \<Rightarrow> (Inl e, [Print ''reporting settings''])
      | Inr info \<Rightarrow>
         (case subscript info ''uuid'' of
            Inl e \<Rightarrow> (Inl e, [Print ''reporting settings''])
          | Inr u \<Rightarrow>
             (case dict_values_to_strings str_of settings of
                Inl e \<Rightarrow> (Inl e, [Print ''reporting settings''])
              | Inr data \<Rightarrow>
                 (case post_data dumps net (PStr (str_of u)) data of
                    (Inl e, tr) \<Rightarrow> (Inl e, Print ''reporting settings'' # tr)
                  | (Inr x, tr) \<Rightarrow>
                      (Inr (), Print ''reporting settings'' # tr @ [Print ''reported settings''])))))"

definition report_settings ::
  "(pyval \<Rightarrow> string) \<Rightarrow> (string \<Rightarrow> pyval \<Rightarrow> error + string) \<Rightarrow> (string \<Rightarrow> error + int)
     \<Rightarrow> pyval \<Rightarrow> (error + unit) \<times> event list" where
  "report_settings str_of dumps net settings =
     (case report_settings_try str_of dumps net settings of
        (Inl e, tr) \<Rightarrow> (Inr (), tr @ [Print ''report settings: failed to report settings''])
      | (Inr x, tr) \<Rightarrow> (Inr (), tr))"

text \<open>
  The conversion as the specification words it: the same keys, every nested mapping
  converted recursively, every other value replaced by its string form.
\<close>

function to_strings_items :: "(pyval \<Rightarrow> string) \<Rightarrow> (pyval \<times> pyval) list \<Rightarrow> (pyval \<times> pyval) list" where
  "to_strings_items str_of [] = []"
| "to_strings_items str_of ((k, v) # rest) =
     (k, (case v of PDict d \<Rightarrow> PDict (to_strings_items str_of d) | _ \<Rightarrow> PStr (str_of v)))
       # to_strings_items str_of rest"
  by pat_completeness auto
termination
  by (relation "measure (\<lambda>(f, items). size_list (size_prod size size) items)") auto

text \<open>Every key, at every nesting depth, is a string.\<close>

function str_keys :: "(pyval \<times> pyval) list \<Rightarrow> bool" where
  "str_keys [] = True"
| "str_keys ((k, v) # rest) =
     (is_str k \<and> (case v of PDict d \<Rightarrow> str_keys d | _ \<Rightarrow> True) \<and> str_keys rest)"
  by pat_completeness auto
termination
  by (relation "measure (size_list (size_prod size size))") auto

text \<open>The keys of a dict are pairwise different, at every nesting depth (as in any Python dict).\<close>

function distinct_keys :: "(pyval \<times> pyval) list \<Rightarrow> bool" where
  "distinct_keys [] = True"
| "distinct_keys ((k, v) # rest) =
     (k \<notin> set (map fst rest) \<and> (case v of PDict d \<Rightarrow> distinct_keys d | _ \<Rightarrow> True)
      \<and> distinct_keys rest)"
  by pat_completeness auto
termination
  by (relation "measure (size_list (size_prod size size))") auto

text \<open>A dict that holds only strings and nested dicts of strings (keys and values).\<close>

function only_strings :: "(pyval \<times> pyval) list \<Rightarrow> bool" where
  "only_strings [] = True"
| "only_strings ((k, v) # rest) =
     (is_str k \<and> (case v of PDict d \<Rightarrow> only_strings d | PStr s \<Rightarrow> True | _ \<Rightarrow> False)
      \<and> only_strings rest)"
  by pat_completeness auto
termination
  by (relation "measure (size_list (size_prod size size))") auto

section \<open>Auxiliary facts\<close>

subsection \<open>Sequencing and evaluation\<close>

lemma and_then_Inl [simp]: "and_then (Inl e) f = Inl e"
  by (simp add: and_then_def)

lemma and_then_Inr [simp]: "and_then (Inr x) f = f x"
  by (simp add: and_then_def)

lemmas eval_defs =
  write_level_def write_console_def Let_def isspace_def is_space_char_def append_truncate_def
  matches_log_level_filter_def LogItem_init_def OutputList_init_def SYSLOG_LEVELS_def
  LOG_ERROR_def LOG_WARN_def LOG_INFO_def LOG_DEBUG_def CONSOLE_LOG_LEVEL_def
  set_paused_def paused_changed_def log_level_filter_changed_def set_log_level_filter_def
  clear_def print_to_log_def str_int_def newline_def digit_char_def

lemma run_append: "run (xs @ ys) st = and_then (run xs st) (run ys)"
proof (induction xs arbitrary: st)
  case Nil
  show ?case by simp
next
  case (Cons x xs)
  show ?case by (cases "step x st") (simp_all add: Cons.IH)
qed

lemma take_append_take: "take n (ys @ take n zs) = take n (ys @ zs)"
  by (simp add: min_def)

subsection \<open>The buffer bound is preserved by every operation\<close>

text \<open>
  When \<open>max_len\<close> is a non-negative integer \<open>m\<close> and the buffer holds at most \<open>m + 1\<close>
  entries, \<open>append_truncate\<close> succeeds and keeps the newest \<open>m + 1\<close> entries.
\<close>

lemma append_truncate_within:
  assumes "0 \<le> m" and "int (length b) \<le> m + 1"
  shows "append_truncate (Some m) b x = Inr (take (nat m + 1) (x # b))"
proof (cases "int (length b) > m")
  case True
  with assms have len: "length b = nat m + 1" by linarith
  then have ne: "b \<noteq> []" by auto
  have "butlast b = take (nat m) b"
    using len by (simp add: butlast_conv_take)
  with True len ne assms show ?thesis
    by (simp add: append_truncate_def)
next
  case False
  then have "length b \<le> nat m" using assms by linarith
  with False show ?thesis
    by (simp add: append_truncate_def)
qed

lemma length_take_bound: "0 \<le> m \<Longrightarrow> int (length (take (nat m + 1) xs)) \<le> m + 1"
  by simp

lemma length_filter_bound: "int (length xs) \<le> k \<Longrightarrow> int (length (filter P xs)) \<le> k"
  using length_filter_le [of P xs] by linarith

lemma write_level_bounded:
  assumes "0 \<le> m" and "buffers_bounded m st"
  shows "\<exists>st'. write_level s level now st = Inr st' \<and> buffers_bounded m st'"
  using assms
  by (auto simp: write_level_def buffers_bounded_def Let_def append_truncate_within SYSLOG_LEVELS_def min_def)

lemma write_console_bounded:
  assumes "0 \<le> m" and "buffers_bounded m st"
  shows "\<exists>st'. write_console s now st = Inr st' \<and> buffers_bounded m st'"
  using assms
  by (auto simp: write_console_def buffers_bounded_def Let_def append_truncate_within SYSLOG_LEVELS_def min_def)

lemma step_bounded:
  assumes "0 \<le> m" and "buffers_bounded m st" and "step x st = Inr st'"
  shows "buffers_bounded m st'"
proof (cases x)
  case (Write s now)
  with assms write_console_bounded [OF assms(1,2), of s now] show ?thesis by auto
next
  case (WriteLevel s level now)
  with assms write_level_bounded [OF assms(1,2), of s level now] show ?thesis by auto
next
  case Clear
  with assms show ?thesis by (auto simp: clear_def buffers_bounded_def SYSLOG_LEVELS_def)
next
  case (SetFilter v)
  with assms show ?thesis
    by (auto simp: set_log_level_filter_def log_level_filter_changed_def buffers_bounded_def
          length_filter_bound SYSLOG_LEVELS_def split: if_splits)
next
  case (SetPaused b)
  with assms show ?thesis
    by (auto simp: set_paused_def paused_changed_def log_level_filter_changed_def
          buffers_bounded_def length_filter_bound SYSLOG_LEVELS_def split: if_splits)
qed

lemma run_bounded:
  assumes "0 \<le> m"
  shows "buffers_bounded m st \<Longrightarrow> run xs st = Inr st' \<Longrightarrow> buffers_bounded m st'"
proof (induction xs arbitrary: st)
  case Nil
  then show ?case by simp
next
  case (Cons x xs)
  from Cons.prems(2) obtain st1 where s1: "step x st = Inr st1" and r: "run xs st1 = Inr st'"
    by (cases "step x st") auto
  from step_bounded [OF assms Cons.prems(1) s1] have "buffers_bounded m st1" .
  from Cons.IH [OF this r] show ?case .
qed

lemma init_bounded: "0 \<le> m \<Longrightarrow> buffers_bounded m (OutputList_init tf (Some m))"
  by (simp add: buffers_bounded_def OutputList_init_def SYSLOG_LEVELS_def)

lemma step_no_assertion:
  assumes "0 \<le> m" and "buffers_bounded m st"
  shows "step x st \<noteq> Inl AssertionError"
proof (cases x)
  case (Write s now)
  with write_console_bounded [OF assms, of s now] show ?thesis by auto
next
  case (WriteLevel s level now)
  with write_level_bounded [OF assms, of s level now] show ?thesis by auto
next
  case (SetFilter v)
  then show ?thesis by (simp add: set_log_level_filter_def)
qed simp_all

subsection \<open>The live buffer settles one above \<open>max_len\<close>\<close>

text \<open>
  On a fresh object with a non-negative integer \<open>max_len = m\<close>, any run of more than
  \<open>m\<close> non-blank calls of \<open>write_level\<close> ends with \<open>m + 1\<close> entries in the live buffer
  (251 entries for the default \<open>max_len\<close> of 250).
\<close>

lemma write_level_unpaused_length:
  assumes "0 \<le> m" and "buffers_bounded m st" and "\<not> paused st" and "s \<noteq> [] \<and> \<not> isspace s"
  shows "\<exists>st'. write_level s level now st = Inr st' \<and> buffers_bounded m st' \<and> \<not> paused st'
           \<and> length (unfiltered_list st') = min (length (unfiltered_list st) + 1) (nat m + 1)"
  using assms
  by (auto simp: write_level_def buffers_bounded_def Let_def append_truncate_within
        SYSLOG_LEVELS_def min_def)

lemma run_replicate_length:
  assumes "0 \<le> m" and "s \<noteq> [] \<and> \<not> isspace s"
  shows "buffers_bounded m st \<Longrightarrow> \<not> paused st
    \<Longrightarrow> \<exists>st'. run (replicate n (WriteLevel s level now)) st = Inr st'
           \<and> length (unfiltered_list st') = min (length (unfiltered_list st) + n) (nat m + 1)"
proof (induction n arbitrary: st)
  case 0
  then have "length (unfiltered_list st) \<le> nat m + 1"
    using assms(1) unfolding buffers_bounded_def by linarith
  then show ?case by simp
next
  case (Suc n)
  from write_level_unpaused_length [OF assms(1) Suc.prems assms(2), of level now]
  obtain st1 where w: "write_level s level now st = Inr st1" and b: "buffers_bounded m st1"
    and p: "\<not> paused st1"
    and l: "length (unfiltered_list st1) = min (length (unfiltered_list st) + 1) (nat m + 1)"
    by blast
  from Suc.IH [OF b p] obtain st' where r: "run (replicate n (WriteLevel s level now)) st1 = Inr st'"
    and l': "length (unfiltered_list st') = min (length (unfiltered_list st1) + n) (nat m + 1)"
    by blast
  from w r l l' show ?case by (simp add: min_def)
qed

lemma live_buffer_settles_above_max_len:
  assumes "0 \<le> m" and "s \<noteq> [] \<and> \<not> isspace s" and "nat m < n"
  shows "\<exists>st'. run (replicate n (WriteLevel s level now)) (OutputList_init tf (Some m)) = Inr st'
           \<and> int (length (unfiltered_list st')) = m + 1"
proof -
  have p: "\<not> paused (OutputList_init tf (Some m))" "unfiltered_list (OutputList_init tf (Some m)) = []"
    by (simp_all add: OutputList_init_def)
  from run_replicate_length [OF assms(1,2) init_bounded [OF assms(1)] p(1), where n = n and level = level
      and now = now]
  show ?thesis using assms(1,3) p(2) by (auto simp: min_def)
qed

subsection \<open>Appends while paused\<close>

lemma step_paused_append:
  assumes "0 \<le> m" and "paused st" and "max_len st = Some m"
    and "int (length (paused_buffer st)) \<le> m + 1" and "is_append x"
  shows "\<exists>st1. step x st = Inr st1
           \<and> paused_buffer st1 = take (nat m + 1) (entry_of x # paused_buffer st)
           \<and> unfiltered_list st1 = unfiltered_list st \<and> filtered_list st1 = filtered_list st
           \<and> paused st1 \<and> max_len st1 = Some m \<and> log_level_filter st1 = log_level_filter st"
proof (cases x)
  case (Write s now)
  with assms show ?thesis
    by (simp add: write_console_def Let_def append_truncate_within)
next
  case (WriteLevel s level now)
  with assms show ?thesis
    by (simp add: write_level_def Let_def append_truncate_within)
qed (use assms in simp_all)

lemma run_paused_appends:
  assumes "0 \<le> m"
  shows "paused st \<Longrightarrow> max_len st = Some m \<Longrightarrow> int (length (paused_buffer st)) \<le> m + 1
    \<Longrightarrow> list_all is_append xs
    \<Longrightarrow> \<exists>st'. run xs st = Inr st'
           \<and> paused_buffer st' = take (nat m + 1) (rev (map entry_of xs) @ paused_buffer st)
           \<and> unfiltered_list st' = unfiltered_list st \<and> filtered_list st' = filtered_list st
           \<and> paused st' \<and> max_len st' = Some m \<and> log_level_filter st' = log_level_filter st"
proof (induction xs arbitrary: st)
  case Nil
  then show ?case using assms by simp
next
  case (Cons x xs)
  from Cons.prems have ax: "is_append x" and axs: "list_all is_append xs" by simp_all
  from step_paused_append [OF assms Cons.prems(1,2,3) ax]
  obtain st1 where s1: "step x st = Inr st1"
    and pb1: "paused_buffer st1 = take (nat m + 1) (entry_of x # paused_buffer st)"
    and same1: "unfiltered_list st1 = unfiltered_list st" "filtered_list st1 = filtered_list st"
      "paused st1" "max_len st1 = Some m" "log_level_filter st1 = log_level_filter st"
    by blast
  have len1: "int (length (paused_buffer st1)) \<le> m + 1"
    using assms pb1 by simp
  from Cons.IH [OF same1(3) same1(4) len1 axs]
  obtain st' where r: "run xs st1 = Inr st'"
    and pb': "paused_buffer st' = take (nat m + 1) (rev (map entry_of xs) @ paused_buffer st1)"
    and same': "unfiltered_list st' = unfiltered_list st1" "filtered_list st' = filtered_list st1"
      "paused st'" "max_len st' = Some m" "log_level_filter st' = log_level_filter st1"
    by blast
  have "paused_buffer st' = take (nat m + 1) (rev (map entry_of (x # xs)) @ paused_buffer st)"
    using pb' pb1 take_append_take [of "nat m + 1" "rev (map entry_of xs)" "entry_of x # paused_buffer st"]
    by simp
  with s1 r same1 same' show ?case by simp
qed

text \<open>
  What pausing, appending and resuming does, for a non-negative integer \<open>max_len = m\<close>
  and a live buffer within the bound: the live buffer becomes the old one with the new
  entries in front, newest first, cut to \<open>m + 1\<close> entries; the pause buffer is empty and
  the filtered view is rebuilt under the unchanged threshold.
\<close>

lemma pause_append_resume_result:
  assumes "0 \<le> m" and "max_len st = Some m" and "\<not> paused st"
    and "int (length (unfiltered_list st)) \<le> m + 1" and "list_all is_append xs"
  shows "\<exists>st'. run (SetPaused True # xs @ [SetPaused False]) st = Inr st'
           \<and> unfiltered_list st' = take (nat m + 1) (rev (map entry_of xs) @ unfiltered_list st)
           \<and> paused_buffer st' = []
           \<and> log_level_filter st' = log_level_filter st
           \<and> filtered_list st' =
               filter (\<lambda>e. log_level e \<le> log_level_filter st) (unfiltered_list st')
           \<and> \<not> paused st'"
proof -
  let ?st0 = "set_paused True st"
  have p0: "paused ?st0" "max_len ?st0 = Some m" "paused_buffer ?st0 = unfiltered_list st"
    "log_level_filter ?st0 = log_level_filter st"
    using assms(2,3) by (simp_all add: set_paused_def paused_changed_def)
  have len0: "int (length (paused_buffer ?st0)) \<le> m + 1"
    using p0(3) assms(4) by simp
  from run_paused_appends [OF assms(1) p0(1) p0(2) len0 assms(5)]
  obtain st1 where r: "run xs ?st0 = Inr st1"
    and pb: "paused_buffer st1 = take (nat m + 1) (rev (map entry_of xs) @ paused_buffer ?st0)"
    and p1: "paused st1" "log_level_filter st1 = log_level_filter ?st0"
    by blast
  have "run (SetPaused True # xs @ [SetPaused False]) st = Inr (set_paused False st1)"
    using r by (simp add: run_append)
  moreover have "unfiltered_list (set_paused False st1) = paused_buffer st1"
    "paused_buffer (set_paused False st1) = []" "\<not> paused (set_paused False st1)"
    "log_level_filter (set_paused False st1) = log_level_filter st"
    "filtered_list (set_paused False st1) =
       filter (\<lambda>e. log_level e \<le> log_level_filter st)
         (unfiltered_list (set_paused False st1))"
    using p1 p0(4)
    by (simp_all add: set_paused_def paused_changed_def log_level_filter_changed_def
          matches_log_level_filter_def)
  ultimately show ?thesis using pb p0(3) by simp
qed

subsection \<open>The log line\<close>

lemma digit_char_not_newline: "digit_char d \<noteq> newline"
  by (simp add: digit_char_def newline_def)

lemma str_nat_no_newline: "newline \<notin> set (str_nat n)"
proof (induction n rule: str_nat.induct)
  case (1 n)
  show ?case
  proof (cases "n < 10")
    case True
    then show ?thesis
      using digit_char_not_newline [of n] by (subst str_nat.simps) auto
  next
    case False
    with "1" show ?thesis
      using digit_char_not_newline [of "n mod 10"] by (subst str_nat.simps) auto
  qed
qed

lemma str_int_no_newline: "newline \<notin> set (str_int i)"
  using str_nat_no_newline by (simp add: str_int_def newline_def)

lemma str_int_console: "str_int CONSOLE_LOG_LEVEL = ''-1''"
  by (simp add: str_int_def CONSOLE_LOG_LEVEL_def str_nat.simps digit_char_def)

lemma write_console_logfile:
  assumes "s \<noteq> [] \<and> \<not> isspace s" and "write_console s now st = Inr st'"
  shows "logfile st' =
           (if tfile st then logfile st @ print_to_log (LogItem_init s CONSOLE_LOG_LEVEL now)
            else logfile st)"
  using assms
  by (auto simp: write_console_def Let_def and_then_def split: sum.splits if_splits)

subsection \<open>The conversion loop\<close>

lemma dict_set_fresh: "k \<notin> set (map fst c) \<Longrightarrow> dict_set c k v = c @ [(k, v)]"
  by (induction c) auto

lemma loop_converts:
  "str_keys items \<Longrightarrow> distinct_keys items \<Longrightarrow> set (map fst items) \<inter> set (map fst c) = {}
     \<Longrightarrow> dict_values_to_strings_loop str_of items c = Inr (c @ to_strings_items str_of items)"
proof (induction str_of items c rule: dict_values_to_strings_loop.induct)
  case (1 str_of converted)
  show ?case by simp
next
  case (2 str_of k v rest converted)
  from "2.prems" have k: "is_str k" and kf: "k \<notin> set (map fst converted)"
    and kr: "k \<notin> set (map fst rest)" and sr: "str_keys rest" and dr: "distinct_keys rest"
    and disj: "set (map fst rest) \<inter> set (map fst converted) = {}"
    by auto
  show ?case
  proof (cases "is_dict v")
    case True
    then obtain d where v: "v = PDict d" by (cases v) auto
    from "2.prems" v have sd: "str_keys d" and dd: "distinct_keys d" by auto
    have inner: "dict_values_to_strings_loop str_of d [] = Inr (to_strings_items str_of d)"
      using "2.IH"(6) [of d] k v sd dd by simp
    let ?c = "dict_set converted k (PDict (to_strings_items str_of d))"
    have c: "?c = converted @ [(k, PDict (to_strings_items str_of d))]"
      using kf by (rule dict_set_fresh)
    have disj': "set (map fst rest) \<inter> set (map fst ?c) = {}"
      using disj kr c by auto
    have "dict_values_to_strings_loop str_of rest ?c = Inr (?c @ to_strings_items str_of rest)"
      using "2.IH"(7) [OF _ v inner sr dr disj'] k by simp
    with k v inner c show ?thesis by simp
  next
    case False
    let ?c = "dict_set converted k (PStr (str_of v))"
    have c: "?c = converted @ [(k, PStr (str_of v))]"
      using kf by (rule dict_set_fresh)
    have disj': "set (map fst rest) \<inter> set (map fst ?c) = {}"
      using disj kr c by auto
    have "dict_values_to_strings_loop str_of rest ?c = Inr (?c @ to_strings_items str_of rest)"
      using "2.IH"(1-5) [OF _ _ sr dr disj'] k False by (cases v) simp_all
    with k False c show ?thesis by (cases v) simp_all
  qed
qed

lemma loop_type_error:
  "(str_keys items \<longrightarrow> (\<exists>r. dict_values_to_strings_loop str_of items c = Inr r))
   \<and> (\<not> str_keys items \<longrightarrow> dict_values_to_strings_loop str_of items c = Inl TypeError)"
proof (induction str_of items c rule: dict_values_to_strings_loop.induct)
  case (1 str_of converted)
  show ?case by simp
next
  case (2 str_of k v rest converted)
  show ?case
  proof (cases "is_str k")
    case False
    then show ?thesis by simp
  next
    case k: True
    show ?thesis
    proof (cases "is_dict v")
      case True
      then obtain d where v: "v = PDict d" by (cases v) auto
      show ?thesis
      proof (cases "str_keys d")
        case False
        then have "dict_values_to_strings_loop str_of d [] = Inl TypeError"
          using "2.IH"(6) [of d] k v by simp
        with k v False show ?thesis by simp
      next
        case True
        then obtain r where r: "dict_values_to_strings_loop str_of d [] = Inr r"
          using "2.IH"(6) [of d] k v by auto
        from "2.IH"(7) [OF _ v r] k r v True show ?thesis by simp
      qed
    next
      case False
      with k "2.IH"(1-5) show ?thesis by (cases v) simp_all
    qed
  qed
qed

lemma keys_to_strings_items: "map fst (to_strings_items str_of items) = map fst items"
  by (induction str_of items rule: to_strings_items.induct) auto

lemma only_strings_to_strings_items:
  "str_keys items \<Longrightarrow> only_strings (to_strings_items str_of items)"
  by (induction str_of items rule: to_strings_items.induct) (auto split: pyval.splits)

section \<open>The claims\<close>

text \<open>
  C1. Claim: for every sequence of calls to \<open>write\<close> and \<open>write_level\<close> on an OutputList
  with an integer \<open>max_len\<close>, the live buffer never holds more than \<open>max_len\<close> entries
  once an append has completed.  The docstring of \<open>append_truncate\<close> ("keeping overall
  size less than max_len") and the comment on the trait ("the maximum allowed length")
  say the same.  The code tests the length before it inserts, so the buffer settles at
  \<open>max_len + 1\<close> entries: with \<open>max_len = 1\<close>, two calls of \<open>write_level\<close> on a fresh
  object leave two entries in the live buffer.
\<close>

theorem C1_live_buffer_exceeds_max_len:
  "run [WriteLevel ''a'' LOG_INFO ''t1'', WriteLevel ''b'' LOG_INFO ''t2'']
       (OutputList_init False (Some 1))
   = Inr \<lparr>unfiltered_list = [LogItem_init ''b'' LOG_INFO ''t2'', LogItem_init ''a'' LOG_INFO ''t1''],
          paused_buffer = [], filtered_list = [], log_level_filter = LOG_ERROR,
          max_len = Some 1, paused = False, tfile = False, logfile = []\<rparr>"
  by (simp add: eval_defs)

text \<open>
  C2. Immediately after the handler \<open>_log_level_filter_changed\<close> has run, after an
  assignment that changes the filter threshold, and after a transition from paused to
  unpaused, the filtered view is exactly the subsequence of the live buffer whose
  entries have a level at most the current threshold, in the same order.
\<close>

theorem C2_filtered_view_after_rebuild:
  "filtered_list (log_level_filter_changed st) =
     filter (\<lambda>e. log_level e \<le> log_level_filter (log_level_filter_changed st))
       (unfiltered_list (log_level_filter_changed st))
   \<and> (v \<noteq> log_level_filter st \<and> set_log_level_filter v st = Inr st' \<longrightarrow>
        log_level_filter st' = v
        \<and> filtered_list st' = filter (\<lambda>e. log_level e \<le> v) (unfiltered_list st'))
   \<and> (paused st \<longrightarrow>
        filtered_list (set_paused False st) =
          filter (\<lambda>e. log_level e \<le> log_level_filter (set_paused False st))
            (unfiltered_list (set_paused False st)))"
  by (auto simp: log_level_filter_changed_def set_log_level_filter_def set_paused_def
        paused_changed_def matches_log_level_filter_def split: if_splits)

theorem C2_filtered_view_after_rebuild_witness:
  "LOG_WARN \<noteq> log_level_filter
      ((OutputList_init False (Some 250))
         \<lparr>unfiltered_list := [LogItem_init ''w'' LOG_WARN ''t2'', LogItem_init ''e'' LOG_ERROR ''t1''],
          paused_buffer := [LogItem_init ''d'' LOG_DEBUG ''t3'', LogItem_init ''e'' LOG_ERROR ''t1''],
          paused := True\<rparr>)
   \<and> set_log_level_filter LOG_WARN
      ((OutputList_init False (Some 250))
         \<lparr>unfiltered_list := [LogItem_init ''w'' LOG_WARN ''t2'', LogItem_init ''e'' LOG_ERROR ''t1''],
          paused_buffer := [LogItem_init ''d'' LOG_DEBUG ''t3'', LogItem_init ''e'' LOG_ERROR ''t1''],
          paused := True\<rparr>)
     = Inr ((OutputList_init False (Some 250))
         \<lparr>unfiltered_list := [LogItem_init ''w'' LOG_WARN ''t2'', LogItem_init ''e'' LOG_ERROR ''t1''],
          paused_buffer := [LogItem_init ''d'' LOG_DEBUG ''t3'', LogItem_init ''e'' LOG_ERROR ''t1''],
          paused := True, log_level_filter := LOG_WARN,
          filtered_list := [LogItem_init ''w'' LOG_WARN ''t2'', LogItem_init ''e'' LOG_ERROR ''t1'']\<rparr>)
   \<and> paused
      ((OutputList_init False (Some 250))
         \<lparr>unfiltered_list := [LogItem_init ''w'' LOG_WARN ''t2'', LogItem_init ''e'' LOG_ERROR ''t1''],
          paused_buffer := [LogItem_init ''d'' LOG_DEBUG ''t3'', LogItem_init ''e'' LOG_ERROR ''t1''],
          paused := True\<rparr>)
   \<and> filtered_list (set_paused False
      ((OutputList_init False (Some 250))
         \<lparr>unfiltered_list := [LogItem_init ''w'' LOG_WARN ''t2'', LogItem_init ''e'' LOG_ERROR ''t1''],
          paused_buffer := [LogItem_init ''d'' LOG_DEBUG ''t3'', LogItem_init ''e'' LOG_ERROR ''t1''],
          paused := True\<rparr>))
     = [LogItem_init ''e'' LOG_ERROR ''t1'']"
  using C2_filtered_view_after_rebuild
    [of "(OutputList_init False (Some 250))
         \<lparr>unfiltered_list := [LogItem_init ''w'' LOG_WARN ''t2'', LogItem_init ''e'' LOG_ERROR ''t1''],
          paused_buffer := [LogItem_init ''d'' LOG_DEBUG ''t3'', LogItem_init ''e'' LOG_ERROR ''t1''],
          paused := True\<rparr>" LOG_WARN]
  by (simp add: eval_defs)

text \<open>
  C3, for a non-negative \<open>max_len\<close>. For an OutputList constructed with a non-negative integer \<open>max_len\<close>,
  in every state reached through the public operations (\<open>write\<close>, \<open>write_level\<close>,
  \<open>clear\<close>, filter change, pause and unpause) no buffer holds more than \<open>max_len + 1\<close>
  entries, and no further operation fails the assertion of \<open>append_truncate\<close>.
  (A rejected filter value raises TraitError and leaves the object as it was, so the
  states of runs without an error are all the states there are.)
\<close>

theorem C3_assertion_never_fails:
  assumes "0 \<le> m" and "run xs (OutputList_init tf (Some m)) = Inr st"
  shows "int (length (unfiltered_list st)) \<le> m + 1
       \<and> int (length (paused_buffer st)) \<le> m + 1
       \<and> int (length (filtered_list st)) \<le> m + 1
       \<and> (\<forall>x. step x st \<noteq> Inl AssertionError)"
proof -
  have b: "buffers_bounded m st"
    using run_bounded [OF assms(1) init_bounded [OF assms(1)] assms(2)] .
  then show ?thesis
    using step_no_assertion [OF assms(1) b] by (simp add: buffers_bounded_def)
qed

lemma run_three_writes:
  "run [WriteLevel ''a'' LOG_ERROR ''t1'', WriteLevel ''b'' LOG_ERROR ''t2'',
        WriteLevel ''c'' LOG_ERROR ''t3''] (OutputList_init False (Some 1))
   = Inr \<lparr>unfiltered_list = [LogItem_init ''c'' LOG_ERROR ''t3'', LogItem_init ''b'' LOG_ERROR ''t2''],
          paused_buffer = [],
          filtered_list = [LogItem_init ''c'' LOG_ERROR ''t3'', LogItem_init ''b'' LOG_ERROR ''t2''],
          log_level_filter = LOG_ERROR, max_len = Some 1, paused = False, tfile = False,
          logfile = []\<rparr>"
  by (simp add: eval_defs)

theorem C3_assertion_never_fails_witness:
  "(0::int) \<le> 1
   \<and> run [WriteLevel ''a'' LOG_ERROR ''t1'', WriteLevel ''b'' LOG_ERROR ''t2'',
          WriteLevel ''c'' LOG_ERROR ''t3''] (OutputList_init False (Some 1))
     = Inr \<lparr>unfiltered_list = [LogItem_init ''c'' LOG_ERROR ''t3'', LogItem_init ''b'' LOG_ERROR ''t2''],
          paused_buffer = [],
          filtered_list = [LogItem_init ''c'' LOG_ERROR ''t3'', LogItem_init ''b'' LOG_ERROR ''t2''],
          log_level_filter = LOG_ERROR, max_len = Some 1, paused = False, tfile = False,
          logfile = []\<rparr>
   \<and> (\<forall>x. step x \<lparr>unfiltered_list = [LogItem_init ''c'' LOG_ERROR ''t3'', LogItem_init ''b'' LOG_ERROR ''t2''],
          paused_buffer = [],
          filtered_list = [LogItem_init ''c'' LOG_ERROR ''t3'', LogItem_init ''b'' LOG_ERROR ''t2''],
          log_level_filter = LOG_ERROR, max_len = Some 1, paused = False, tfile = False,
          logfile = []\<rparr> \<noteq> Inl AssertionError)"
proof -
  have h: "(0::int) \<le> 1" by simp
  from C3_assertion_never_fails [OF h run_three_writes] run_three_writes show ?thesis
    by simp
qed

text \<open>
  The claim as it was stated covers every integer \<open>max_len\<close>.  It fails for a negative
  one: with \<open>max_len = - 2\<close> the empty buffers of the fresh object already exceed
  \<open>max_len\<close> by two, and the first \<open>write\<close> fails the assertion.
\<close>

theorem C3_negative_max_len_counterexample:
  "run [] (OutputList_init False (Some (- 2))) = Inr (OutputList_init False (Some (- 2)))
   \<and> int (length (unfiltered_list (OutputList_init False (Some (- 2))))) - (- 2) = 2
   \<and> step (Write ''x'' ''t'') (OutputList_init False (Some (- 2))) = Inl AssertionError"
  by (simp add: eval_defs)

text \<open>
  C4. Claim: setting \<open>paused\<close> to True, appending N non-blank entries and setting
  \<open>paused\<close> back to False yields a live buffer equal to the pre-pause live buffer with
  the N new entries in front, newest first, cut to the maximum length \<open>max_len\<close>;
  the pause buffer is left empty and the filtered view is rebuilt from the new live
  buffer.  The code does all of this except the cut: the entries go through
  \<open>append_truncate\<close>, which tests the length before it inserts, so the live buffer
  comes back with \<open>max_len + 1\<close> entries.  On a fresh object with \<open>max_len = 1\<close>:
  one entry is written, the object is paused, two entries are written, and the object is
  resumed; the live buffer then holds the two new entries, where the cut to \<open>max_len\<close>
  leaves only the newest.
\<close>

theorem C4_resume_exceeds_max_len:
  "run [WriteLevel ''old'' LOG_ERROR ''t0'', SetPaused True, Write ''a'' ''t1'',
        WriteLevel ''b'' LOG_ERROR ''t2'', SetPaused False] (OutputList_init False (Some 1))
   = Inr \<lparr>unfiltered_list =
            [\<lparr>log_level = 3, timestamp = ''t2'', msg = ''b''\<rparr>,
             \<lparr>log_level = - 1, timestamp = ''t1'', msg = ''a''\<rparr>],
          paused_buffer = [],
          filtered_list =
            [\<lparr>log_level = 3, timestamp = ''t2'', msg = ''b''\<rparr>,
             \<lparr>log_level = - 1, timestamp = ''t1'', msg = ''a''\<rparr>],
          log_level_filter = 3, max_len = Some 1, paused = False, tfile = False,
          logfile = []\<rparr>"
  by (simp add: eval_defs)

text \<open>
  C5. For every string that is empty or consists only of whitespace, \<open>write\<close> and
  \<open>write_level\<close> return normally and leave the whole object unchanged: no entry is
  created, and the live buffer, the filtered view, the pause buffer and the log file are
  as before.
\<close>

theorem C5_blank_write_changes_nothing:
  assumes "s = [] \<or> isspace s"
  shows "write_console s now st = Inr st \<and> write_level s level now st = Inr st"
  using assms by (auto simp: write_console_def write_level_def)

theorem C5_blank_write_changes_nothing_witness:
  "([CHR '' '', CHR 0x09, CHR 0x0A] = [] \<or> isspace [CHR '' '', CHR 0x09, CHR 0x0A])
   \<and> write_console [CHR '' '', CHR 0x09, CHR 0x0A] ''t'' (OutputList_init True (Some 250))
       = Inr (OutputList_init True (Some 250))
   \<and> write_level [CHR '' '', CHR 0x09, CHR 0x0A] LOG_ERROR ''t'' (OutputList_init True (Some 250))
       = Inr (OutputList_init True (Some 250))"
proof -
  have h: "[CHR '' '', CHR 0x09, CHR 0x0A] = [] \<or> isspace [CHR '' '', CHR 0x09, CHR 0x0A]"
    by (simp add: isspace_def is_space_char_def)
  from C5_blank_write_changes_nothing [OF h] h show ?thesis by blast
qed

text \<open>
  C6. \<open>report_settings\<close> never lets an exception escape, for any settings value, any
  \<open>str()\<close>, any \<open>json.dumps\<close> and any behaviour of the network; \<open>post_data\<close> called with a uuid that is
  not a string or with data that is not a dict returns normally without a POST; and
  \<open>report_settings\<close> on the empty mapping issues no POST.
\<close>

theorem C6_report_never_raises:
  "fst (report_settings str_of dumps net settings) = Inr ()
   \<and> (\<not> is_str uuid \<or> \<not> is_dict data \<longrightarrow>
        fst (post_data dumps net uuid data) = Inr ()
        \<and> posts (snd (post_data dumps net uuid data)) = [])
   \<and> posts (snd (report_settings str_of dumps net (PDict []))) = []"
proof -
  have a: "fst (report_settings str_of dumps net settings) = Inr ()"
    by (simp add: report_settings_def split: prod.splits sum.splits)
  have b: "fst (post_data dumps net uuid data) = Inr ()
      \<and> posts (snd (post_data dumps net uuid data)) = []"
    if "\<not> is_str uuid \<or> \<not> is_dict data"
    using that by (cases uuid) (auto simp: post_data_def posts_def)
  have c: "posts (snd (report_settings str_of dumps net (PDict []))) = []"
    by (simp add: report_settings_def report_settings_try_def posts_def)
  from a b c show ?thesis by blast
qed

theorem C6_report_never_raises_witness:
  "fst (report_settings (\<lambda>v. case v of PInt i \<Rightarrow> str_int i | _ \<Rightarrow> ''None'')
          (\<lambda>u d. Inr ''[]'') (\<lambda>body. Inr 200)
          (PDict [(PStr ''system_info'', PDict [(PStr ''uuid'', PInt 7)])])) = Inr ()
   \<and> \<not> is_str (PInt 7)
   \<and> fst (post_data (\<lambda>u d. Inr ''[]'') (\<lambda>body. Inr 200) (PInt 7) (PDict [])) = Inr ()
   \<and> posts (snd (post_data (\<lambda>u d. Inr ''[]'') (\<lambda>body. Inr 200) (PInt 7) (PDict []))) = []
   \<and> posts (snd (report_settings (\<lambda>v. case v of PInt i \<Rightarrow> str_int i | _ \<Rightarrow> ''None'')
          (\<lambda>u d. Inr ''[]'') (\<lambda>body. Inr 200) (PDict []))) = []"
  using C6_report_never_raises
    [of "\<lambda>v. case v of PInt i \<Rightarrow> str_int i | _ \<Rightarrow> ''None''" "\<lambda>u d. Inr ''[]''"
        "\<lambda>body. Inr 200"
        "PDict [(PStr ''system_info'', PDict [(PStr ''uuid'', PInt 7)])]" "PInt 7" "PDict []"]
  by simp

text \<open>
  C7. For every dict whose keys, at every nesting depth, are strings (and pairwise
  different within each dict, as in any Python dict), \<open>dict_values_to_strings\<close> returns
  the dict with the same keys in which every nested dict is converted recursively and
  every other value is replaced by its string form, so that the result holds only
  strings and nested dicts of strings.  If some key, at any depth, is not a string, it
  raises TypeError.
\<close>

theorem C7_dict_values_to_strings:
  "(str_keys items \<and> distinct_keys items \<longrightarrow>
      dict_values_to_strings str_of (PDict items) = Inr (PDict (to_strings_items str_of items))
      \<and> map fst (to_strings_items str_of items) = map fst items
      \<and> only_strings (to_strings_items str_of items))
   \<and> (\<not> str_keys items \<longrightarrow> dict_values_to_strings str_of (PDict items) = Inl TypeError)"
proof -
  have "dict_values_to_strings str_of (PDict items) = Inr (PDict (to_strings_items str_of items))"
    if "str_keys items" "distinct_keys items"
    using loop_converts [OF that, of "[]" str_of] by (simp add: dict_values_to_strings_def)
  moreover have "dict_values_to_strings str_of (PDict items) = Inl TypeError"
    if "\<not> str_keys items"
    using loop_type_error [of items str_of "[]"] that by (simp add: dict_values_to_strings_def)
  ultimately show ?thesis
    using keys_to_strings_items only_strings_to_strings_items by blast
qed

theorem C7_dict_values_to_strings_witness:
  "(str_keys [(PStr ''a'', PInt 1), (PStr ''b'', PDict [(PStr ''c'', PNone)])]
    \<and> distinct_keys [(PStr ''a'', PInt 1), (PStr ''b'', PDict [(PStr ''c'', PNone)])])
   \<and> dict_values_to_strings (\<lambda>v. case v of PInt i \<Rightarrow> str_int i | _ \<Rightarrow> ''None'')
        (PDict [(PStr ''a'', PInt 1), (PStr ''b'', PDict [(PStr ''c'', PNone)])])
      = Inr (PDict [(PStr ''a'', PStr ''1''), (PStr ''b'', PDict [(PStr ''c'', PStr ''None'')])])
   \<and> \<not> str_keys [(PStr ''a'', PDict [(PInt 1, PNone)])]
   \<and> dict_values_to_strings (\<lambda>v. case v of PInt i \<Rightarrow> str_int i | _ \<Rightarrow> ''None'')
        (PDict [(PStr ''a'', PDict [(PInt 1, PNone)])])
      = Inl TypeError"
  using C7_dict_values_to_strings
    [of "[(PStr ''a'', PInt 1), (PStr ''b'', PDict [(PStr ''c'', PNone)])]"
        "\<lambda>v. case v of PInt i \<Rightarrow> str_int i | _ \<Rightarrow> ''None''"]
    C7_dict_values_to_strings
    [of "[(PStr ''a'', PDict [(PInt 1, PNone)])]"
        "\<lambda>v. case v of PInt i \<Rightarrow> str_int i | _ \<Rightarrow> ''None''"]
  by (simp add: str_int_def str_nat.simps digit_char_def)

text \<open>
  C8, for \<open>write\<close>. With the log file enabled, every non-blank message appended by \<open>write\<close>
  (paused or not) adds to the log file exactly the text \<open>timestamp,-1,message\<close> followed
  by a newline; this is exactly one line whenever neither the timestamp nor the message
  contains a newline.
\<close>

theorem C8_write_logs_one_line:
  assumes "tfile st" and "s \<noteq> [] \<and> \<not> isspace s" and "write_console s now st = Inr st'"
  shows "logfile st' = logfile st @ (now @ '','' @ ''-1'' @ '','' @ s) @ [newline]
       \<and> (newline \<notin> set now \<and> newline \<notin> set s \<longrightarrow>
            newline \<notin> set (now @ '','' @ ''-1'' @ '','' @ s))"
proof -
  have "logfile st' = logfile st @ print_to_log (LogItem_init s CONSOLE_LOG_LEVEL now)"
    using write_console_logfile [OF assms(2,3)] assms(1) by simp
  then have "logfile st' = logfile st @ (now @ '','' @ ''-1'' @ '','' @ s) @ [newline]"
    using str_int_console by (simp add: print_to_log_def LogItem_init_def)
  moreover have "newline \<notin> set now \<and> newline \<notin> set s \<longrightarrow>
      newline \<notin> set (now @ '','' @ ''-1'' @ '','' @ s)"
    by (simp add: newline_def)
  ultimately show ?thesis by blast
qed

theorem C8_write_logs_one_line_witness:
  "tfile (OutputList_init True (Some 250))
   \<and> (''hi'' \<noteq> [] \<and> \<not> isspace ''hi'')
   \<and> write_console ''hi'' ''Jan 01 2020 00:00:00'' (OutputList_init True (Some 250))
      = Inr ((OutputList_init True (Some 250))
              \<lparr>unfiltered_list := [LogItem_init ''hi'' CONSOLE_LOG_LEVEL ''Jan 01 2020 00:00:00''],
               filtered_list := [LogItem_init ''hi'' CONSOLE_LOG_LEVEL ''Jan 01 2020 00:00:00''],
               logfile := ''Jan 01 2020 00:00:00,-1,hi'' @ [newline]\<rparr>)
   \<and> (newline \<notin> set ''Jan 01 2020 00:00:00'' \<and> newline \<notin> set ''hi'')
   \<and> newline \<notin> set ''Jan 01 2020 00:00:00,-1,hi''"
proof -
  let ?st' = "(OutputList_init True (Some 250))
              \<lparr>unfiltered_list := [LogItem_init ''hi'' CONSOLE_LOG_LEVEL ''Jan 01 2020 00:00:00''],
               filtered_list := [LogItem_init ''hi'' CONSOLE_LOG_LEVEL ''Jan 01 2020 00:00:00''],
               logfile := ''Jan 01 2020 00:00:00,-1,hi'' @ [newline]\<rparr>"
  have h1: "tfile (OutputList_init True (Some 250))"
    by (simp add: OutputList_init_def)
  have h2: "''hi'' \<noteq> [] \<and> \<not> isspace ''hi''"
    by (simp add: isspace_def is_space_char_def)
  have h3: "write_console ''hi'' ''Jan 01 2020 00:00:00'' (OutputList_init True (Some 250)) = Inr ?st'"
    by (simp add: eval_defs str_nat.simps)
  have h4: "newline \<notin> set ''Jan 01 2020 00:00:00'' \<and> newline \<notin> set ''hi''"
    by (simp add: newline_def)
  from C8_write_logs_one_line [OF h1 h2 h3] h1 h2 h3 h4 show ?thesis by simp
qed

text \<open>
  The claim as it was stated fails in two ways, both on a fresh object with the log file
  enabled.  A non-blank \<open>write_level\<close> appends its entry to the buffers and writes
  nothing to the log file, although \<open>write\<close> does.  And a message with a newline inside,
  passed to \<open>write\<close>, is logged as it is and occupies two lines.
\<close>

theorem C8_log_lines_counterexample:
  "write_level ''hello'' LOG_ERROR ''Jan 01 2020 00:00:00'' (OutputList_init True (Some 250))
     = Inr ((OutputList_init True (Some 250))
             \<lparr>unfiltered_list := [LogItem_init ''hello'' LOG_ERROR ''Jan 01 2020 00:00:00''],
              filtered_list := [LogItem_init ''hello'' LOG_ERROR ''Jan 01 2020 00:00:00''],
              logfile := []\<rparr>)
   \<and> write_console (''a'' @ [newline] @ ''b'') ''Jan 01 2020 00:00:00''
       (OutputList_init True (Some 250))
     = Inr ((OutputList_init True (Some 250))
             \<lparr>unfiltered_list :=
                [LogItem_init (''a'' @ [newline] @ ''b'') CONSOLE_LOG_LEVEL ''Jan 01 2020 00:00:00''],
              filtered_list :=
                [LogItem_init (''a'' @ [newline] @ ''b'') CONSOLE_LOG_LEVEL ''Jan 01 2020 00:00:00''],
              logfile := ''Jan 01 2020 00:00:00,-1,a'' @ [newline] @ ''b'' @ [newline]\<rparr>)
   \<and> count_list (''Jan 01 2020 00:00:00,-1,a'' @ [newline] @ ''b'' @ [newline]) newline = 2"
  by (simp add: eval_defs str_nat.simps)

text \<open>
  C9. Starting from empty buffers (unpaused, with a non-negative integer \<open>max_len\<close>),
  \<open>write_level("hello", LOG_WARN)\<close> followed by \<open>write_level("world", LOG_ERROR)\<close>, with
  the filter threshold set to \<open>LOG_ERROR\<close> either before the two calls or after them,
  yields a filtered view of exactly one entry: the one with message "world" and level
  \<open>LOG_ERROR\<close>, which is 3 (and the time stamp of the second call).
\<close>

theorem C9_example:
  assumes "max_len st = Some m" and "0 \<le> m" and "\<not> paused st"
    and "unfiltered_list st = []" and "filtered_list st = []"
    and "log_level_filter st \<in> set (map fst SYSLOG_LEVELS)"
  shows "(\<exists>st'. run [SetFilter LOG_ERROR, WriteLevel ''hello'' LOG_WARN t1,
                     WriteLevel ''world'' LOG_ERROR t2] st = Inr st'
            \<and> filtered_list st' = [\<lparr>log_level = 3, timestamp = t2, msg = ''world''\<rparr>])
       \<and> (\<exists>st'. run [WriteLevel ''hello'' LOG_WARN t1, WriteLevel ''world'' LOG_ERROR t2,
                     SetFilter LOG_ERROR] st = Inr st'
            \<and> filtered_list st' = [\<lparr>log_level = 3, timestamp = t2, msg = ''world''\<rparr>])"
proof -
  have nb: "''hello'' \<noteq> [] \<and> \<not> isspace ''hello''" "''world'' \<noteq> [] \<and> \<not> isspace ''world''"
    by (simp_all add: isspace_def is_space_char_def)
  have before: "\<exists>st'. run [SetFilter LOG_ERROR, WriteLevel ''hello'' LOG_WARN t1,
                     WriteLevel ''world'' LOG_ERROR t2] st = Inr st'
            \<and> filtered_list st' = [\<lparr>log_level = 3, timestamp = t2, msg = ''world''\<rparr>]"
    using assms nb
    by (simp add: set_log_level_filter_def log_level_filter_changed_def write_level_def Let_def
          append_truncate_within matches_log_level_filter_def LogItem_init_def
          SYSLOG_LEVELS_def LOG_WARN_def LOG_ERROR_def LOG_INFO_def LOG_DEBUG_def)
  have after: "\<exists>st'. run [WriteLevel ''hello'' LOG_WARN t1, WriteLevel ''world'' LOG_ERROR t2,
                     SetFilter LOG_ERROR] st = Inr st'
            \<and> filtered_list st' = [\<lparr>log_level = 3, timestamp = t2, msg = ''world''\<rparr>]"
    using assms nb
    by (auto simp: set_log_level_filter_def log_level_filter_changed_def write_level_def Let_def
          append_truncate_within matches_log_level_filter_def LogItem_init_def take_Cons
          SYSLOG_LEVELS_def LOG_WARN_def LOG_ERROR_def LOG_INFO_def LOG_DEBUG_def
          split: nat.splits)
  from before after show ?thesis by blast
qed

theorem C9_example_witness:
  "max_len (OutputList_init False (Some 250)) = Some 250 \<and> (0::int) \<le> 250
   \<and> \<not> paused (OutputList_init False (Some 250))
   \<and> unfiltered_list (OutputList_init False (Some 250)) = []
   \<and> filtered_list (OutputList_init False (Some 250)) = []
   \<and> log_level_filter (OutputList_init False (Some 250)) \<in> set (map fst SYSLOG_LEVELS)
   \<and> (\<exists>st'. run [SetFilter LOG_ERROR, WriteLevel ''hello'' LOG_WARN ''t1'',
                  WriteLevel ''world'' LOG_ERROR ''t2''] (OutputList_init False (Some 250)) = Inr st'
          \<and> filtered_list st' = [\<lparr>log_level = 3, timestamp = ''t2'', msg = ''world''\<rparr>])
   \<and> (\<exists>st'. run [WriteLevel ''hello'' LOG_WARN ''t1'', WriteLevel ''world'' LOG_ERROR ''t2'',
                  SetFilter LOG_ERROR] (OutputList_init False (Some 250)) = Inr st'
          \<and> filtered_list st' = [\<lparr>log_level = 3, timestamp = ''t2'', msg = ''world''\<rparr>])"
proof -
  have h: "max_len (OutputList_init False (Some 250)) = Some 250" "(0::int) \<le> 250"
    "\<not> paused (OutputList_init False (Some 250))"
    "unfiltered_list (OutputList_init False (Some 250)) = []"
    "filtered_list (OutputList_init False (Some 250)) = []"
    "log_level_filter (OutputList_init False (Some 250)) \<in> set (map fst SYSLOG_LEVELS)"
    by (simp_all add: OutputList_init_def SYSLOG_LEVELS_def)
  from C9_example [OF h, of "''t1''" "''t2''"] h show ?thesis by blast
qed

text \<open>
  C10. Console entries are unmaskable: an entry of level \<open>CONSOLE_LOG_LEVEL\<close> passes
  the filter at every threshold that is a key of \<open>SYSLOG_LEVELS\<close>, so a non-blank
  \<open>write\<close> on an unpaused object (with a non-negative integer \<open>max_len\<close> and buffers
  within the bound) puts its entry at the front of the filtered view, whatever the
  threshold.
\<close>

theorem C10_console_unmaskable:
  assumes "log_level_filter st \<in> set (map fst SYSLOG_LEVELS)"
    and "\<not> paused st" and "s \<noteq> [] \<and> \<not> isspace s"
    and "max_len st = Some m" and "0 \<le> m"
    and "int (length (unfiltered_list st)) \<le> m + 1" and "int (length (filtered_list st)) \<le> m + 1"
  shows "matches_log_level_filter (LogItem_init s CONSOLE_LOG_LEVEL now) (log_level_filter st)
       \<and> (\<exists>st'. write_console s now st = Inr st'
             \<and> filtered_list st' =
                 LogItem_init s CONSOLE_LOG_LEVEL now # take (nat m) (filtered_list st))"
proof -
  have m: "matches_log_level_filter (LogItem_init s CONSOLE_LOG_LEVEL now) (log_level_filter st)"
    using assms(1)
    by (auto simp: matches_log_level_filter_def LogItem_init_def CONSOLE_LOG_LEVEL_def
          SYSLOG_LEVELS_def LOG_ERROR_def LOG_WARN_def LOG_INFO_def LOG_DEBUG_def)
  with assms(2-7) show ?thesis
    by (simp add: write_console_def Let_def append_truncate_within)
qed

theorem C10_console_unmaskable_witness:
  "log_level_filter (OutputList_init False (Some 250)) \<in> set (map fst SYSLOG_LEVELS)
   \<and> \<not> paused (OutputList_init False (Some 250))
   \<and> (''x'' \<noteq> [] \<and> \<not> isspace ''x'')
   \<and> max_len (OutputList_init False (Some 250)) = Some 250 \<and> (0::int) \<le> 250
   \<and> int (length (unfiltered_list (OutputList_init False (Some 250)))) \<le> 250 + 1
   \<and> int (length (filtered_list (OutputList_init False (Some 250)))) \<le> 250 + 1
   \<and> matches_log_level_filter (LogItem_init ''x'' CONSOLE_LOG_LEVEL ''t'')
        (log_level_filter (OutputList_init False (Some 250)))
   \<and> (\<exists>st'. write_console ''x'' ''t'' (OutputList_init False (Some 250)) = Inr st'
          \<and> filtered_list st' = [LogItem_init ''x'' CONSOLE_LOG_LEVEL ''t''])"
proof -
  have h: "log_level_filter (OutputList_init False (Some 250)) \<in> set (map fst SYSLOG_LEVELS)"
    "\<not> paused (OutputList_init False (Some 250))"
    "''x'' \<noteq> [] \<and> \<not> isspace ''x''"
    "max_len (OutputList_init False (Some 250)) = Some 250" "(0::int) \<le> 250"
    "int (length (unfiltered_list (OutputList_init False (Some 250)))) \<le> 250 + 1"
    "int (length (filtered_list (OutputList_init False (Some 250)))) \<le> 250 + 1"
    by (simp_all add: OutputList_init_def SYSLOG_LEVELS_def isspace_def is_space_char_def)
  have e: "filtered_list (OutputList_init False (Some 250)) = []"
    by (simp add: OutputList_init_def)
  from C10_console_unmaskable [OF h, of "''t''"] h e show ?thesis by simp
qed

end
